theory Spec2Isabelle
  imports Main "HOL-Library.Word"
begin

section \<open>The combination lock sketch\<close>

text \<open>
  The program is the sketch of \<^verbatim>\<open>examples/combination-lock-puzzle\<close>: three global
  variables (\<^verbatim>\<open>currentState\<close>, \<^verbatim>\<open>failureCount\<close>, \<^verbatim>\<open>stageStartTime\<close>) and a
  \<^verbatim>\<open>loop()\<close> that the board calls again and again. Every function of the sketch becomes
  a function from the state before to the state after.

  The board-support layer is modelled by what the sketch can observe of it:
  \<^item> \<^verbatim>\<open>millis()\<close> reads a 32-bit millisecond counter (\<^verbatim>\<open>unsigned long\<close> on the
    ATmega32U4), so differences of two readings wrap modulo \<open>2 ^ 32\<close>;
  \<^item> \<^verbatim>\<open>delay(ms)\<close> blocks, that is, it advances that counter by \<open>ms\<close>;
  \<^item> \<^verbatim>\<open>analogRead\<close> and \<^verbatim>\<open>digitalRead\<close> are sampled at most once per pin in one pass
    of \<^verbatim>\<open>loop()\<close>, so one pass takes one record of readings, together with the counter's
    value at the moment the pass begins;
  \<^item> \<^verbatim>\<open>Serial.print\<close>/\<^verbatim>\<open>Serial.println\<close> append to the serial output.
  LED writes and tones change no variable of the sketch and are left out; the delays
  that accompany them are kept, since they move the clock.

  \<^verbatim>\<open>failureCount\<close> and the sensor reading are C \<^verbatim>\<open>int\<close>s; they are modelled as
  \<open>int\<close> (signed overflow is undefined in C++, and the counter never leaves \<open>0..3\<close>).
\<close>

datatype LockState =
  IDLE | ARMING | ARMED | STAGE_1 | STAGE_2 | STAGE_3_TIMED | STAGE_4
  | UNLOCKED | FAILED | LOCKDOWN

text \<open>The integer value of an enumerator, as C++ numbers them.\<close>

fun LockState_value :: "LockState \<Rightarrow> int" where
  "LockState_value IDLE = 0"
| "LockState_value ARMING = 1"
| "LockState_value ARMED = 2"
| "LockState_value STAGE_1 = 3"
| "LockState_value STAGE_2 = 4"
| "LockState_value STAGE_3_TIMED = 5"
| "LockState_value STAGE_4 = 6"
| "LockState_value UNLOCKED = 7"
| "LockState_value FAILED = 8"
| "LockState_value LOCKDOWN = 9"

datatype level = LOW | HIGH

definition DARK_THRESHOLD :: int where "DARK_THRESHOLD = 400"
definition LIGHT_THRESHOLD :: int where "LIGHT_THRESHOLD = 700"
definition TIMED_STAGE_WINDOW :: int where "TIMED_STAGE_WINDOW = 2000"
definition MAX_FAILURES :: int where "MAX_FAILURES = 3"

text \<open>What is written to the serial port, call by call.\<close>

datatype serial_item = Print string | PrintInt int | Println string

text \<open>
  The state of the sketch and of the board as far as the sketch observes it. The field
  \<open>history\<close> is a ghost variable: it lists every value assigned to \<^verbatim>\<open>currentState\<close>,
  oldest first, so that states passed through inside one pass of the loop stay visible.
\<close>

record lock =
  currentState :: LockState
  failureCount :: int
  stageStartTime :: "32 word"
  clock :: "32 word"
  serial :: "serial_item list"
  history :: "LockState list"

text \<open>The readings of one pass of \<^verbatim>\<open>loop()\<close>.\<close>

record inputs =
  ldr :: int
  button_a4 :: level
  button_a5 :: level
  now :: "32 word"

subsection \<open>The board-support layer\<close>

definition millis :: "lock \<Rightarrow> 32 word" where
  "millis c = clock c"

definition delay :: "32 word \<Rightarrow> lock \<Rightarrow> lock" where
  "delay ms c = c\<lparr>clock := clock c + ms\<rparr>"

definition print :: "string \<Rightarrow> lock \<Rightarrow> lock" where
  "print s c = c\<lparr>serial := serial c @ [Print s]\<rparr>"

definition print_int :: "int \<Rightarrow> lock \<Rightarrow> lock" where
  "print_int n c = c\<lparr>serial := serial c @ [PrintInt n]\<rparr>"

definition println :: "string \<Rightarrow> lock \<Rightarrow> lock" where
  "println s c = c\<lparr>serial := serial c @ [Println s]\<rparr>"

text \<open>An assignment \<^verbatim>\<open>currentState = s\<close>, recorded in the ghost history.\<close>

definition set_state :: "LockState \<Rightarrow> lock \<Rightarrow> lock" where
  "set_state s c = c\<lparr>currentState := s, history := history c @ [s]\<rparr>"

subsection \<open>The sketch\<close>

text \<open>\<^verbatim>\<open>setup()\<close>: the globals at their initialisers, and the greeting on the serial port.\<close>

definition setup_lock :: lock where
  "setup_lock =
     println ''Advanced Combination Lock Initialized. Hold both buttons to arm.''
       \<lparr>currentState = IDLE, failureCount = 0, stageStartTime = 0, clock = 0,
        serial = [], history = []\<rparr>"

definition handleIdleState :: "inputs \<Rightarrow> lock \<Rightarrow> lock" where
  "handleIdleState i c =
     (if button_a4 i = LOW \<and> button_a5 i = LOW then
        (let c1 = set_state ARMING c;
             c2 = println ''Arming sequence initiated...'' c1
         in delay 200 c2)
      else c)"

definition handleArmingState :: "inputs \<Rightarrow> lock \<Rightarrow> lock" where
  "handleArmingState i c =
     (if button_a4 i = HIGH \<and> button_a5 i = HIGH then set_state ARMED c else c)"

definition handleLockdownState :: "lock \<Rightarrow> lock" where
  "handleLockdownState c =
     (let c1 = delay 200 c;
          c2 = delay 200 c1
      in if millis c2 - stageStartTime c2 > 10000 then
           (let c3 = println ''Lockdown over. System reset.'' c2;
                c4 = c3\<lparr>failureCount := 0\<rparr>
            in set_state IDLE c4)
         else c2)"

definition advanceStage :: "LockState \<Rightarrow> lock \<Rightarrow> lock" where
  "advanceStage nextStage c =
     (let c1 = print ''Stage '' c;
          c2 = print_int (LockState_value (currentState c1) - LockState_value ARMED) c1;
          c3 = println ''complete.'' c2;
          c4 = set_state nextStage c3;
          c5 = c4\<lparr>stageStartTime := millis c4\<rparr>
      in delay 200 c5)"

definition failSequence :: "lock \<Rightarrow> lock" where
  "failSequence c =
     (let c1 = println ''Sequence Failed! Resetting.'' c;
          c2 = c1\<lparr>failureCount := failureCount c1 + 1\<rparr>;
          c3 = delay 270 c2;
          c4 = delay 1000 c3
      in if failureCount c4 \<ge> MAX_FAILURES then
           (let c5 = println ''Maximum failures reached. System lockdown!'' c4;
                c6 = set_state LOCKDOWN c5
            in c6\<lparr>stageStartTime := millis c6\<rparr>)
         else set_state IDLE c4)"

definition unlockSequence :: "lock \<Rightarrow> lock" where
  "unlockSequence c =
     (let c1 = println ''SYSTEM UNLOCKED'' c;
          c2 = set_state UNLOCKED c1;
          c3 = c2\<lparr>failureCount := 0\<rparr>;
          c4 = delay 120 c3;
          c5 = delay 120 c4;
          c6 = delay 120 c5;
          c7 = delay 3000 c6
      in set_state IDLE c7)"

text \<open>
  \<^verbatim>\<open>updateStageIndicator\<close>: a counting loop over the pulses, and inside it one loop
  that fades the yellow LED in and one that fades it out. The bodies only write the LED
  and wait. Each loop is a recursive function on its loop variable.
\<close>

function fade_in :: "int \<Rightarrow> lock \<Rightarrow> lock" where
  "fade_in fadeValue c =
     (if fadeValue \<le> 255 then fade_in (fadeValue + 5) (delay 1 c) else c)"
  by pat_completeness auto
termination
  by (relation "measure (\<lambda>(fadeValue, c). nat (260 - fadeValue))") auto

function fade_out :: "int \<Rightarrow> lock \<Rightarrow> lock" where
  "fade_out fadeValue c =
     (if fadeValue \<ge> 0 then fade_out (fadeValue - 5) (delay 1 c) else c)"
  by pat_completeness auto
termination
  by (relation "measure (\<lambda>(fadeValue, c). nat (fadeValue + 5))") auto

function pulses :: "int \<Rightarrow> int \<Rightarrow> lock \<Rightarrow> lock" where
  "pulses k stage c =
     (if k < stage then pulses (k + 1) stage (delay 200 (fade_out 255 (fade_in 0 c)))
      else c)"
  by pat_completeness auto
termination
  by (relation "measure (\<lambda>(k, stage, c). nat (stage - k))") auto

declare fade_in.simps [simp del] fade_out.simps [simp del] pulses.simps [simp del]

definition updateStageIndicator :: "int \<Rightarrow> lock \<Rightarrow> lock" where
  "updateStageIndicator stage c = delay 500 (pulses 0 stage c)"

text \<open>
  \<^verbatim>\<open>loop()\<close>: one pass. The pass begins at clock value \<open>now i\<close>; the \<^verbatim>\<open>unsigned long\<close>
  comparison converts the \<^verbatim>\<open>int\<close> constant \<^verbatim>\<open>TIMED_STAGE_WINDOW\<close> to 32 bits.
\<close>

definition loop :: "inputs \<Rightarrow> lock \<Rightarrow> lock" where
  "loop i c0 =
     (let c = c0\<lparr>clock := now i\<rparr> in
      case currentState c of
        IDLE \<Rightarrow> handleIdleState i c
      | ARMING \<Rightarrow> handleArmingState i c
      | ARMED \<Rightarrow>
          (let c1 = println ''System Armed. Begin sequence.'' c;
               c2 = set_state STAGE_1 c1
           in c2\<lparr>stageStartTime := millis c2\<rparr>)
      | STAGE_1 \<Rightarrow>
          (let c1 = updateStageIndicator 1 c
           in if ldr i < DARK_THRESHOLD then advanceStage STAGE_2 c1 else c1)
      | STAGE_2 \<Rightarrow>
          (let c1 = updateStageIndicator 2 c
           in if ldr i < DARK_THRESHOLD \<and> button_a4 i = LOW
              then advanceStage STAGE_3_TIMED c1 else c1)
      | STAGE_3_TIMED \<Rightarrow>
          (let c1 = updateStageIndicator 3 c;
               c2 = (if ldr i > LIGHT_THRESHOLD then
                       (if millis c1 - stageStartTime c1 \<le> word_of_int TIMED_STAGE_WINDOW
                        then advanceStage STAGE_4 c1
                        else failSequence (println ''Timed stage failed: Too slow!'' c1))
                     else c1)
           in if millis c2 - stageStartTime c2 > word_of_int TIMED_STAGE_WINDOW
              then failSequence (println ''Timed stage failed: Ran out of time!'' c2)
              else c2)
      | STAGE_4 \<Rightarrow>
          (let c1 = updateStageIndicator 4 c
           in if ldr i > LIGHT_THRESHOLD \<and> button_a5 i = LOW
              then unlockSequence c1 else c1)
      | UNLOCKED \<Rightarrow> c
      | FAILED \<Rightarrow> c
      | LOCKDOWN \<Rightarrow> handleLockdownState c)"

text \<open>Running the loop on a sequence of readings, first reading first.\<close>

fun run :: "inputs list \<Rightarrow> lock \<Rightarrow> lock" where
  "run [] c = c"
| "run (i # is) c = run is (loop i c)"

section \<open>Observations on a run\<close>

text \<open>
  How often the failure routine and the unlock routine have run so far, read off the
  serial output: each run of \<^verbatim>\<open>failSequence\<close> prints its first line once, and so does
  each run of \<^verbatim>\<open>unlockSequence\<close>; no other routine prints either line.
\<close>

definition failures :: "lock \<Rightarrow> nat" where
  "failures c = count_list (serial c) (Println ''Sequence Failed! Resetting.'')"

definition unlocks :: "lock \<Rightarrow> nat" where
  "unlocks c = count_list (serial c) (Println ''SYSTEM UNLOCKED'')"

text \<open>
  The time since stage entry that the timed stage compares with its window: the clock
  is read after the stage indicator has been shown.
\<close>

definition elapsed_at_check :: "inputs \<Rightarrow> lock \<Rightarrow> 32 word" where
  "elapsed_at_check i c =
     (let c1 = updateStageIndicator 3 (c\<lparr>clock := now i\<rparr>)
      in millis c1 - stageStartTime c1)"

text \<open>The values assigned to \<^verbatim>\<open>currentState\<close> during one pass, in order.\<close>

definition tick_trace :: "inputs \<Rightarrow> lock \<Rightarrow> LockState list" where
  "tick_trace i c = drop (length (history c)) (history (loop i c))"

text \<open>The transitions of a pass: each state paired with the one assigned after it.\<close>

fun steps :: "LockState \<Rightarrow> LockState list \<Rightarrow> (LockState \<times> LockState) list" where
  "steps s [] = []"
| "steps s (t # ts) = (s, t) # steps t ts"

text \<open>
  The time since stage entry at the second, unconditional check of the timed stage, on a
  pass whose first check has already run the failure routine: the routine has blocked in
  between, and has rewritten the timestamp if it entered \<^verbatim>\<open>LOCKDOWN\<close>.
\<close>

definition elapsed_at_recheck :: "inputs \<Rightarrow> lock \<Rightarrow> 32 word" where
  "elapsed_at_recheck i c =
     (let c1 = updateStageIndicator 3 (c\<lparr>clock := now i\<rparr>);
          c2 = failSequence (println ''Timed stage failed: Too slow!'' c1)
      in millis c2 - stageStartTime c2)"

text \<open>
  The passes on which the sketch runs the failure routine twice: in the timed stage,
  with the sensor above the light threshold, the window exceeded at the first check and
  exceeded again at the second.
\<close>

definition fails_twice :: "inputs \<Rightarrow> lock \<Rightarrow> bool" where
  "fails_twice i c \<longleftrightarrow>
     currentState c = STAGE_3_TIMED \<and> ldr i > LIGHT_THRESHOLD
     \<and> elapsed_at_check i c > word_of_int TIMED_STAGE_WINDOW
     \<and> elapsed_at_recheck i c > word_of_int TIMED_STAGE_WINDOW"

text \<open>The clock when the stage indicator of a stage has been shown.\<close>

definition indicator_done :: "int \<Rightarrow> inputs \<Rightarrow> lock \<Rightarrow> 32 word" where
  "indicator_done stage i c = millis (updateStageIndicator stage (c\<lparr>clock := now i\<rparr>))"

text \<open>The time since lockdown began that \<^verbatim>\<open>handleLockdownState\<close> compares with 10 s.\<close>

definition lockdown_elapsed :: "inputs \<Rightarrow> lock \<Rightarrow> 32 word" where
  "lockdown_elapsed i c =
     (let c2 = delay 200 (delay 200 (c\<lparr>clock := now i\<rparr>))
      in millis c2 - stageStartTime c2)"

text \<open>
  The transition table of section 4.1 of the specification, written from its rows: a
  transition from \<open>s\<close> to \<open>t\<close> is a row when the table lists it and the guard of the
  row holds for the readings \<open>i\<close> of the pass and the state \<open>c\<close> the pass starts in.
  Button 1 is pin A4 and button 2 is pin A5, pressed reads \<^verbatim>\<open>LOW\<close>; the counter that
  decides where \<open>Failed\<close> leads is the counter after the increment of that row. The
  row from \<open>Unlocked\<close> has no guard on the readings: its hold time passes inside the
  unlock routine.
\<close>

definition table_4_1 :: "inputs \<Rightarrow> lock \<Rightarrow> LockState \<Rightarrow> LockState \<Rightarrow> bool" where
  "table_4_1 i c s t \<longleftrightarrow>
     s = IDLE \<and> t = ARMING \<and> button_a4 i = LOW \<and> button_a5 i = LOW
     \<or> s = ARMING \<and> t = ARMED \<and> button_a4 i = HIGH \<and> button_a5 i = HIGH
     \<or> s = ARMED \<and> t = STAGE_1
     \<or> s = STAGE_1 \<and> t = STAGE_2 \<and> ldr i < DARK_THRESHOLD
     \<or> s = STAGE_2 \<and> t = STAGE_3_TIMED \<and> ldr i < DARK_THRESHOLD \<and> button_a4 i = LOW
     \<or> s = STAGE_3_TIMED \<and> t = STAGE_4 \<and> ldr i > LIGHT_THRESHOLD
         \<and> elapsed_at_check i c \<le> word_of_int TIMED_STAGE_WINDOW
     \<or> s = STAGE_3_TIMED \<and> t = FAILED
         \<and> elapsed_at_check i c > word_of_int TIMED_STAGE_WINDOW
     \<or> s = STAGE_4 \<and> t = UNLOCKED \<and> ldr i > LIGHT_THRESHOLD \<and> button_a5 i = LOW
     \<or> s = UNLOCKED \<and> t = IDLE
     \<or> s = FAILED \<and> t = LOCKDOWN \<and> failureCount c + 1 \<ge> MAX_FAILURES
     \<or> s = FAILED \<and> t = IDLE \<and> failureCount c + 1 < MAX_FAILURES
     \<or> s = LOCKDOWN \<and> t = IDLE \<and> lockdown_elapsed i c > 10000"

text \<open>
  The same table with the \<open>Failed\<close> rows folded into the timed stage: on expiry the
  failure routine leaves \<^verbatim>\<open>STAGE_3_TIMED\<close> directly for \<^verbatim>\<open>LOCKDOWN\<close> or \<^verbatim>\<open>IDLE\<close>.
\<close>

definition sketch_table :: "inputs \<Rightarrow> lock \<Rightarrow> LockState \<Rightarrow> LockState \<Rightarrow> bool" where
  "sketch_table i c s t \<longleftrightarrow>
     s = IDLE \<and> t = ARMING \<and> button_a4 i = LOW \<and> button_a5 i = LOW
     \<or> s = ARMING \<and> t = ARMED \<and> button_a4 i = HIGH \<and> button_a5 i = HIGH
     \<or> s = ARMED \<and> t = STAGE_1
     \<or> s = STAGE_1 \<and> t = STAGE_2 \<and> ldr i < DARK_THRESHOLD
     \<or> s = STAGE_2 \<and> t = STAGE_3_TIMED \<and> ldr i < DARK_THRESHOLD \<and> button_a4 i = LOW
     \<or> s = STAGE_3_TIMED \<and> t = STAGE_4 \<and> ldr i > LIGHT_THRESHOLD
         \<and> elapsed_at_check i c \<le> word_of_int TIMED_STAGE_WINDOW
     \<or> s = STAGE_3_TIMED \<and> t = LOCKDOWN
         \<and> elapsed_at_check i c > word_of_int TIMED_STAGE_WINDOW
         \<and> failureCount c + 1 \<ge> MAX_FAILURES
     \<or> s = STAGE_3_TIMED \<and> t = IDLE
         \<and> elapsed_at_check i c > word_of_int TIMED_STAGE_WINDOW
         \<and> failureCount c + 1 < MAX_FAILURES
     \<or> s = STAGE_4 \<and> t = UNLOCKED \<and> ldr i > LIGHT_THRESHOLD \<and> button_a5 i = LOW
     \<or> s = UNLOCKED \<and> t = IDLE
     \<or> s = LOCKDOWN \<and> t = IDLE \<and> lockdown_elapsed i c > 10000"

text \<open>A pass follows a table when every one of its transitions is a row of the table.\<close>

definition tick_follows ::
  "(inputs \<Rightarrow> lock \<Rightarrow> LockState \<Rightarrow> LockState \<Rightarrow> bool) \<Rightarrow> inputs \<Rightarrow> lock \<Rightarrow> bool" where
  "tick_follows T i c =
     list_all (\<lambda>(s, t). T i c s t) (steps (currentState c) (tick_trace i c))"

text \<open>
  The side effects of a row, as far as the model observes them: the states assigned, the
  failure counter, the stage-entry timestamp, and how often the failure routine and the
  unlock routine ran (their feedback on LEDs and buzzer is outside the model).
\<close>

definition pass_effect ::
  "lock \<Rightarrow> lock \<Rightarrow> LockState list \<Rightarrow> int \<Rightarrow> 32 word \<Rightarrow> nat \<Rightarrow> nat \<Rightarrow> bool" where
  "pass_effect c c' assigned counter timer failed unlocked \<longleftrightarrow>
     history c' = history c @ assigned
     \<and> currentState c' = last (currentState c # assigned)
     \<and> failureCount c' = counter
     \<and> stageStartTime c' = timer
     \<and> failures c' = failures c + failed
     \<and> unlocks c' = unlocks c + unlocked"

text \<open>A pass that waits assigns no state and leaves counter and timestamp alone.\<close>

definition waits :: "lock \<Rightarrow> lock \<Rightarrow> bool" where
  "waits c c' = pass_effect c c' [] (failureCount c) (stageStartTime c) 0 0"

text \<open>
  The folded table read as a prescription for one pass from \<open>c\<close> to \<open>c'\<close>: in each
  state, when the guard of a row holds the pass takes that row with its side effects
  (recording or resetting the timer, incrementing or resetting the counter), and when no
  guard holds the pass waits. A pass from \<^verbatim>\<open>STAGE_4\<close> whose guard holds takes two rows,
  to \<open>Unlocked\<close> and on to \<open>Idle\<close> after the chime and the 3 s hold.
\<close>

definition sketch_table_pass :: "inputs \<Rightarrow> lock \<Rightarrow> lock \<Rightarrow> bool" where
  "sketch_table_pass i c c' =
     (case currentState c of
        IDLE \<Rightarrow>
          if button_a4 i = LOW \<and> button_a5 i = LOW
          then pass_effect c c' [ARMING] (failureCount c) (stageStartTime c) 0 0
          else waits c c'
      | ARMING \<Rightarrow>
          if button_a4 i = HIGH \<and> button_a5 i = HIGH
          then pass_effect c c' [ARMED] (failureCount c) (stageStartTime c) 0 0
          else waits c c'
      | ARMED \<Rightarrow> pass_effect c c' [STAGE_1] (failureCount c) (now i) 0 0
      | STAGE_1 \<Rightarrow>
          if ldr i < DARK_THRESHOLD
          then pass_effect c c' [STAGE_2] (failureCount c) (indicator_done 1 i c) 0 0
          else waits c c'
      | STAGE_2 \<Rightarrow>
          if ldr i < DARK_THRESHOLD \<and> button_a4 i = LOW
          then pass_effect c c' [STAGE_3_TIMED] (failureCount c) (indicator_done 2 i c) 0 0
          else waits c c'
      | STAGE_3_TIMED \<Rightarrow>
          if elapsed_at_check i c > word_of_int TIMED_STAGE_WINDOW then
            (if failureCount c + 1 \<ge> MAX_FAILURES
             then pass_effect c c' [LOCKDOWN] (failureCount c + 1) (clock c') 1 0
             else pass_effect c c' [IDLE] (failureCount c + 1) (stageStartTime c) 1 0)
          else if ldr i > LIGHT_THRESHOLD
          then pass_effect c c' [STAGE_4] (failureCount c) (indicator_done 3 i c) 0 0
          else waits c c'
      | STAGE_4 \<Rightarrow>
          if ldr i > LIGHT_THRESHOLD \<and> button_a5 i = LOW
          then pass_effect c c' [UNLOCKED, IDLE] 0 (stageStartTime c) 0 1
               \<and> clock c' = indicator_done 4 i c + 3360
          else waits c c'
      | UNLOCKED \<Rightarrow> waits c c'
      | FAILED \<Rightarrow> waits c c'
      | LOCKDOWN \<Rightarrow>
          if lockdown_elapsed i c > 10000
          then pass_effect c c' [IDLE] 0 (stageStartTime c) 0 0
          else waits c c')"

text \<open>
  The condition under which \<^verbatim>\<open>loop()\<close> does more than wait, state by state, as the
  \<^verbatim>\<open>if\<close>s of the sketch have it. The cases \<^verbatim>\<open>UNLOCKED\<close> and \<^verbatim>\<open>FAILED\<close> of the
  \<^verbatim>\<open>switch\<close> are empty.
\<close>

definition guard_satisfied :: "inputs \<Rightarrow> lock \<Rightarrow> bool" where
  "guard_satisfied i c =
     (case currentState c of
        IDLE \<Rightarrow> button_a4 i = LOW \<and> button_a5 i = LOW
      | ARMING \<Rightarrow> button_a4 i = HIGH \<and> button_a5 i = HIGH
      | ARMED \<Rightarrow> True
      | STAGE_1 \<Rightarrow> ldr i < DARK_THRESHOLD
      | STAGE_2 \<Rightarrow> ldr i < DARK_THRESHOLD \<and> button_a4 i = LOW
      | STAGE_3_TIMED \<Rightarrow>
          ldr i > LIGHT_THRESHOLD \<or> elapsed_at_check i c > word_of_int TIMED_STAGE_WINDOW
      | STAGE_4 \<Rightarrow> ldr i > LIGHT_THRESHOLD \<and> button_a5 i = LOW
      | UNLOCKED \<Rightarrow> False
      | FAILED \<Rightarrow> False
      | LOCKDOWN \<Rightarrow>
          (let c2 = delay 200 (delay 200 (c\<lparr>clock := now i\<rparr>))
           in millis c2 - stageStartTime c2 > 10000))"

text \<open>The invariant of the failure counter.\<close>

definition counter_within_limit :: "lock \<Rightarrow> bool" where
  "counter_within_limit c \<longleftrightarrow>
     0 \<le> failureCount c \<and> failureCount c \<le> MAX_FAILURES
     \<and> (failureCount c = MAX_FAILURES \<longrightarrow> currentState c = LOCKDOWN)"

subsection \<open>Two example runs\<close>

text \<open>
  From power-on: arm, pass stages 1 and 2, be too slow with the sensor uncovered (the
  failure routine runs twice), then arm and pass stages 1 and 2 again. One more pass
  after the window has closed is the third failure.
\<close>

definition lockdown_run :: "inputs list" where
  "lockdown_run =
     [\<lparr>ldr = 800, button_a4 = LOW, button_a5 = LOW, now = 0\<rparr>,
      \<lparr>ldr = 800, button_a4 = HIGH, button_a5 = HIGH, now = 300\<rparr>,
      \<lparr>ldr = 800, button_a4 = HIGH, button_a5 = HIGH, now = 301\<rparr>,
      \<lparr>ldr = 100, button_a4 = HIGH, button_a5 = HIGH, now = 302\<rparr>,
      \<lparr>ldr = 100, button_a4 = LOW, button_a5 = HIGH, now = 1400\<rparr>,
      \<lparr>ldr = 800, button_a4 = HIGH, button_a5 = HIGH, now = 9000\<rparr>,
      \<lparr>ldr = 800, button_a4 = LOW, button_a5 = LOW, now = 12000\<rparr>,
      \<lparr>ldr = 800, button_a4 = HIGH, button_a5 = HIGH, now = 12300\<rparr>,
      \<lparr>ldr = 800, button_a4 = HIGH, button_a5 = HIGH, now = 12301\<rparr>,
      \<lparr>ldr = 100, button_a4 = HIGH, button_a5 = HIGH, now = 12302\<rparr>,
      \<lparr>ldr = 100, button_a4 = LOW, button_a5 = HIGH, now = 13400\<rparr>]"

text \<open>
  From the timed stage: too slow with the sensor uncovered, then arm and pass stages 1
  and 2 again.
\<close>

definition three_failures_run :: "inputs list" where
  "three_failures_run =
     [\<lparr>ldr = 800, button_a4 = HIGH, button_a5 = HIGH, now = 5000\<rparr>,
      \<lparr>ldr = 800, button_a4 = LOW, button_a5 = LOW, now = 12000\<rparr>,
      \<lparr>ldr = 800, button_a4 = HIGH, button_a5 = HIGH, now = 12300\<rparr>,
      \<lparr>ldr = 800, button_a4 = HIGH, button_a5 = HIGH, now = 12301\<rparr>,
      \<lparr>ldr = 100, button_a4 = HIGH, button_a5 = HIGH, now = 12302\<rparr>,
      \<lparr>ldr = 100, button_a4 = LOW, button_a5 = HIGH, now = 13400\<rparr>]"

section \<open>Auxiliary facts\<close>

subsection \<open>The stage indicator only takes time\<close>

lemma delay_delay: "delay a (delay b c) = delay (b + a) c"
  by (simp add: delay_def add.assoc)

lemma fade_in_closed: "fade_in 0 c = delay 52 c"
  by (simp add: fade_in.simps delay_delay)

lemma fade_out_closed: "fade_out 255 c = delay 52 c"
  by (simp add: fade_out.simps delay_delay)

lemma updateStageIndicator_1: "updateStageIndicator 1 c = delay 804 c"
  by (simp add: updateStageIndicator_def pulses.simps fade_in_closed fade_out_closed delay_delay)

lemma updateStageIndicator_2: "updateStageIndicator 2 c = delay 1108 c"
  by (simp add: updateStageIndicator_def pulses.simps fade_in_closed fade_out_closed delay_delay)

lemma updateStageIndicator_3: "updateStageIndicator 3 c = delay 1412 c"
  by (simp add: updateStageIndicator_def pulses.simps fade_in_closed fade_out_closed delay_delay)

lemma updateStageIndicator_4: "updateStageIndicator 4 c = delay 1716 c"
  by (simp add: updateStageIndicator_def pulses.simps fade_in_closed fade_out_closed delay_delay)

lemmas indicator = updateStageIndicator_1 updateStageIndicator_2 updateStageIndicator_3
  updateStageIndicator_4

lemmas board = millis_def delay_def print_def print_int_def println_def set_state_def

lemmas limits = DARK_THRESHOLD_def LIGHT_THRESHOLD_def TIMED_STAGE_WINDOW_def MAX_FAILURES_def

lemmas sketch = loop_def handleIdleState_def handleArmingState_def handleLockdownState_def
  advanceStage_def failSequence_def unlockSequence_def indicator board limits Let_def

subsection \<open>One pass of the loop, state by state\<close>

lemma loop_IDLE: "currentState c = IDLE \<Longrightarrow> loop i c = handleIdleState i (c\<lparr>clock := now i\<rparr>)"
  by (simp add: loop_def)

lemma loop_ARMING:
  "currentState c = ARMING \<Longrightarrow> loop i c = handleArmingState i (c\<lparr>clock := now i\<rparr>)"
  by (simp add: loop_def)

lemma loop_ARMED:
  "currentState c = ARMED \<Longrightarrow> loop i c =
     (set_state STAGE_1 (println ''System Armed. Begin sequence.'' (c\<lparr>clock := now i\<rparr>)))
       \<lparr>stageStartTime := now i\<rparr>"
  by (simp add: loop_def Let_def board)

lemma loop_STAGE_1:
  "currentState c = STAGE_1 \<Longrightarrow> loop i c =
     (if ldr i < DARK_THRESHOLD then advanceStage STAGE_2 (delay 804 (c\<lparr>clock := now i\<rparr>))
      else delay 804 (c\<lparr>clock := now i\<rparr>))"
  by (simp add: loop_def Let_def indicator)

lemma loop_STAGE_2:
  "currentState c = STAGE_2 \<Longrightarrow> loop i c =
     (if ldr i < DARK_THRESHOLD \<and> button_a4 i = LOW
      then advanceStage STAGE_3_TIMED (delay 1108 (c\<lparr>clock := now i\<rparr>))
      else delay 1108 (c\<lparr>clock := now i\<rparr>))"
  by (simp add: loop_def Let_def indicator)

lemma loop_STAGE_4:
  "currentState c = STAGE_4 \<Longrightarrow> loop i c =
     (if ldr i > LIGHT_THRESHOLD \<and> button_a5 i = LOW
      then unlockSequence (delay 1716 (c\<lparr>clock := now i\<rparr>))
      else delay 1716 (c\<lparr>clock := now i\<rparr>))"
  by (simp add: loop_def Let_def indicator)

lemma loop_UNLOCKED: "currentState c = UNLOCKED \<Longrightarrow> loop i c = c\<lparr>clock := now i\<rparr>"
  by (simp add: loop_def)

lemma loop_FAILED: "currentState c = FAILED \<Longrightarrow> loop i c = c\<lparr>clock := now i\<rparr>"
  by (simp add: loop_def)

lemma loop_LOCKDOWN:
  "currentState c = LOCKDOWN \<Longrightarrow> loop i c = handleLockdownState (c\<lparr>clock := now i\<rparr>)"
  by (simp add: loop_def)

lemma loop_STAGE_3:
  "currentState c = STAGE_3_TIMED \<Longrightarrow> loop i c =
     (let c1 = delay 1412 (c\<lparr>clock := now i\<rparr>);
          c2 = (if ldr i > LIGHT_THRESHOLD then
                  (if millis c1 - stageStartTime c1 \<le> 2000
                   then advanceStage STAGE_4 c1
                   else failSequence (println ''Timed stage failed: Too slow!'' c1))
                else c1)
      in if millis c2 - stageStartTime c2 > 2000
         then failSequence (println ''Timed stage failed: Ran out of time!'' c2)
         else c2)"
  by (simp add: loop_def Let_def indicator TIMED_STAGE_WINDOW_def)

lemma elapsed_at_check_eq: "elapsed_at_check i c = now i + 1412 - stageStartTime c"
  by (simp add: elapsed_at_check_def indicator delay_def millis_def)

subsection \<open>What each routine does to each variable\<close>

lemma handleIdleState_fields:
  "currentState (handleIdleState i c) =
     (if button_a4 i = LOW \<and> button_a5 i = LOW then ARMING else currentState c)"
  "failureCount (handleIdleState i c) = failureCount c"
  "stageStartTime (handleIdleState i c) = stageStartTime c"
  "history (handleIdleState i c) =
     (if button_a4 i = LOW \<and> button_a5 i = LOW then history c @ [ARMING] else history c)"
  by (simp_all add: handleIdleState_def board Let_def)

lemma handleArmingState_fields:
  "currentState (handleArmingState i c) =
     (if button_a4 i = HIGH \<and> button_a5 i = HIGH then ARMED else currentState c)"
  "failureCount (handleArmingState i c) = failureCount c"
  "stageStartTime (handleArmingState i c) = stageStartTime c"
  "serial (handleArmingState i c) = serial c"
  "history (handleArmingState i c) =
     (if button_a4 i = HIGH \<and> button_a5 i = HIGH then history c @ [ARMED] else history c)"
  by (simp_all add: handleArmingState_def board)

lemma handleLockdownState_fields:
  "currentState (handleLockdownState c) =
     (if clock c + 400 - stageStartTime c > 10000 then IDLE else currentState c)"
  "failureCount (handleLockdownState c) =
     (if clock c + 400 - stageStartTime c > 10000 then 0 else failureCount c)"
  "stageStartTime (handleLockdownState c) = stageStartTime c"
  "history (handleLockdownState c) =
     (if clock c + 400 - stageStartTime c > 10000 then history c @ [IDLE] else history c)"
  by (simp_all add: handleLockdownState_def board Let_def add.assoc)

lemma advanceStage_fields:
  "currentState (advanceStage s c) = s"
  "failureCount (advanceStage s c) = failureCount c"
  "stageStartTime (advanceStage s c) = clock c"
  "clock (advanceStage s c) = clock c + 200"
  "history (advanceStage s c) = history c @ [s]"
  by (simp_all add: advanceStage_def board Let_def)

lemma failSequence_fields:
  "currentState (failSequence c) =
     (if failureCount c + 1 \<ge> MAX_FAILURES then LOCKDOWN else IDLE)"
  "failureCount (failSequence c) = failureCount c + 1"
  "stageStartTime (failSequence c) =
     (if failureCount c + 1 \<ge> MAX_FAILURES then clock c + 1270 else stageStartTime c)"
  "clock (failSequence c) = clock c + 1270"
  "history (failSequence c) =
     history c @ [if failureCount c + 1 \<ge> MAX_FAILURES then LOCKDOWN else IDLE]"
  by (simp_all add: failSequence_def board Let_def add.assoc)

lemma unlockSequence_fields:
  "currentState (unlockSequence c) = IDLE"
  "failureCount (unlockSequence c) = 0"
  "stageStartTime (unlockSequence c) = stageStartTime c"
  "history (unlockSequence c) = history c @ [UNLOCKED, IDLE]"
  by (simp_all add: unlockSequence_def board Let_def)

lemma println_fields:
  "currentState (println s c) = currentState c"
  "failureCount (println s c) = failureCount c"
  "stageStartTime (println s c) = stageStartTime c"
  "clock (println s c) = clock c"
  "history (println s c) = history c"
  by (simp_all add: println_def)

lemma delay_fields:
  "currentState (delay ms c) = currentState c"
  "failureCount (delay ms c) = failureCount c"
  "stageStartTime (delay ms c) = stageStartTime c"
  "clock (delay ms c) = clock c + ms"
  "serial (delay ms c) = serial c"
  "history (delay ms c) = history c"
  by (simp_all add: delay_def)

lemma set_state_fields:
  "currentState (set_state s c) = s"
  "failureCount (set_state s c) = failureCount c"
  "stageStartTime (set_state s c) = stageStartTime c"
  "clock (set_state s c) = clock c"
  "serial (set_state s c) = serial c"
  "history (set_state s c) = history c @ [s]"
  by (simp_all add: set_state_def)

lemmas fields = handleIdleState_fields handleArmingState_fields handleLockdownState_fields
  advanceStage_fields failSequence_fields unlockSequence_fields println_fields delay_fields
  set_state_fields millis_def

subsection \<open>The serial output of each routine\<close>

lemma failures_basic:
  "failures (c\<lparr>clock := t\<rparr>) = failures c"
  "failures (c\<lparr>stageStartTime := t\<rparr>) = failures c"
  "failures (delay ms c) = failures c"
  "failures (set_state s c) = failures c"
  by (simp_all add: failures_def delay_def set_state_def)

lemma unlocks_basic:
  "unlocks (c\<lparr>clock := t\<rparr>) = unlocks c"
  "unlocks (c\<lparr>stageStartTime := t\<rparr>) = unlocks c"
  "unlocks (delay ms c) = unlocks c"
  "unlocks (set_state s c) = unlocks c"
  by (simp_all add: unlocks_def delay_def set_state_def)

lemma failures_println:
  "failures (println s c) = (if s = ''Sequence Failed! Resetting.'' then failures c + 1 else failures c)"
  by (simp add: failures_def println_def)

lemma unlocks_println:
  "unlocks (println s c) = (if s = ''SYSTEM UNLOCKED'' then unlocks c + 1 else unlocks c)"
  by (simp add: unlocks_def println_def)

lemma failures_routines:
  "failures (handleIdleState i c) = failures c"
  "failures (handleArmingState i c) = failures c"
  "failures (handleLockdownState c) = failures c"
  "failures (advanceStage s c) = failures c"
  "failures (unlockSequence c) = failures c"
  "failures (failSequence c) = failures c + 1"
  by (simp_all add: failures_def handleIdleState_def handleArmingState_def
      handleLockdownState_def advanceStage_def unlockSequence_def failSequence_def board Let_def)

lemma unlocks_routines:
  "unlocks (handleIdleState i c) = unlocks c"
  "unlocks (handleArmingState i c) = unlocks c"
  "unlocks (handleLockdownState c) = unlocks c"
  "unlocks (advanceStage s c) = unlocks c"
  "unlocks (unlockSequence c) = unlocks c + 1"
  "unlocks (failSequence c) = unlocks c"
  by (simp_all add: unlocks_def handleIdleState_def handleArmingState_def
      handleLockdownState_def advanceStage_def unlockSequence_def failSequence_def board Let_def)

lemma failures_messages:
  "failures (println ''Timed stage failed: Too slow!'' c) = failures c"
  "failures (println ''Timed stage failed: Ran out of time!'' c) = failures c"
  "failures (println ''System Armed. Begin sequence.'' c) = failures c"
  by (simp_all add: failures_println)

lemma unlocks_messages:
  "unlocks (println ''Timed stage failed: Too slow!'' c) = unlocks c"
  "unlocks (println ''Timed stage failed: Ran out of time!'' c) = unlocks c"
  "unlocks (println ''System Armed. Begin sequence.'' c) = unlocks c"
  by (simp_all add: unlocks_println)

lemmas outputs = failures_basic unlocks_basic failures_routines unlocks_routines
  failures_messages unlocks_messages

subsection \<open>The outcomes of a pass in the timed stage\<close>

lemma stage3_advance:
  assumes "currentState c = STAGE_3_TIMED" "ldr i > LIGHT_THRESHOLD" "elapsed_at_check i c \<le> 2000"
  shows "loop i c = advanceStage STAGE_4 (delay 1412 (c\<lparr>clock := now i\<rparr>))"
  using assms by (simp add: loop_STAGE_3 elapsed_at_check_eq Let_def fields)

lemma stage3_wait:
  assumes "currentState c = STAGE_3_TIMED" "\<not> ldr i > LIGHT_THRESHOLD" "elapsed_at_check i c \<le> 2000"
  shows "loop i c = delay 1412 (c\<lparr>clock := now i\<rparr>)"
  using assms by (simp add: loop_STAGE_3 elapsed_at_check_eq Let_def fields not_less)

lemma stage3_timeout:
  assumes "currentState c = STAGE_3_TIMED" "\<not> ldr i > LIGHT_THRESHOLD" "2000 < elapsed_at_check i c"
  shows "loop i c = failSequence (println ''Timed stage failed: Ran out of time!''
                      (delay 1412 (c\<lparr>clock := now i\<rparr>)))"
  using assms by (simp add: loop_STAGE_3 elapsed_at_check_eq Let_def fields)

lemma stage3_slow_lockdown:
  assumes "currentState c = STAGE_3_TIMED" "ldr i > LIGHT_THRESHOLD" "2000 < elapsed_at_check i c"
    "failureCount c + 1 \<ge> MAX_FAILURES"
  shows "loop i c = failSequence (println ''Timed stage failed: Too slow!''
                      (delay 1412 (c\<lparr>clock := now i\<rparr>)))"
  using assms by (simp add: loop_STAGE_3 elapsed_at_check_eq Let_def fields not_le)

lemma stage3_slow_twice:
  assumes "currentState c = STAGE_3_TIMED" "ldr i > LIGHT_THRESHOLD" "2000 < elapsed_at_check i c"
    "failureCount c + 1 < MAX_FAILURES" "2000 < elapsed_at_check i c + 1270"
  shows "loop i c =
     failSequence (println ''Timed stage failed: Ran out of time!''
       (failSequence (println ''Timed stage failed: Too slow!''
          (delay 1412 (c\<lparr>clock := now i\<rparr>)))))"
proof -
  have "elapsed_at_check i c + 1270 = now i + 1412 + 1270 - stageStartTime c"
    by (simp add: elapsed_at_check_eq)
  with assms(5) have "2000 < now i + 1412 + 1270 - stageStartTime c"
    by simp
  with assms(1-4) show ?thesis
    by (simp add: loop_STAGE_3 elapsed_at_check_eq Let_def fields not_le)
qed

lemma stage3_slow_once:
  assumes "currentState c = STAGE_3_TIMED" "ldr i > LIGHT_THRESHOLD" "2000 < elapsed_at_check i c"
    "failureCount c + 1 < MAX_FAILURES" "\<not> 2000 < elapsed_at_check i c + 1270"
  shows "loop i c = failSequence (println ''Timed stage failed: Too slow!''
                      (delay 1412 (c\<lparr>clock := now i\<rparr>)))"
proof -
  have "elapsed_at_check i c + 1270 = now i + 1412 + 1270 - stageStartTime c"
    by (simp add: elapsed_at_check_eq)
  with assms(5) have "\<not> 2000 < now i + 1412 + 1270 - stageStartTime c"
    by simp
  with assms(1-4) show ?thesis
    by (simp add: loop_STAGE_3 elapsed_at_check_eq Let_def fields not_le)
qed

lemma stage3_outcomes:
  assumes "currentState c = STAGE_3_TIMED"
  obtains
    (advance) "ldr i > LIGHT_THRESHOLD" "elapsed_at_check i c \<le> 2000"
      "loop i c = advanceStage STAGE_4 (delay 1412 (c\<lparr>clock := now i\<rparr>))"
  | (wait) "\<not> ldr i > LIGHT_THRESHOLD" "elapsed_at_check i c \<le> 2000"
      "loop i c = delay 1412 (c\<lparr>clock := now i\<rparr>)"
  | (timeout) "\<not> ldr i > LIGHT_THRESHOLD" "2000 < elapsed_at_check i c"
      "loop i c = failSequence (println ''Timed stage failed: Ran out of time!''
                      (delay 1412 (c\<lparr>clock := now i\<rparr>)))"
  | (slow_once) "ldr i > LIGHT_THRESHOLD" "2000 < elapsed_at_check i c"
      "failureCount c + 1 \<ge> MAX_FAILURES \<or> \<not> 2000 < elapsed_at_check i c + 1270"
      "loop i c = failSequence (println ''Timed stage failed: Too slow!''
                      (delay 1412 (c\<lparr>clock := now i\<rparr>)))"
  | (slow_twice) "ldr i > LIGHT_THRESHOLD" "2000 < elapsed_at_check i c"
      "failureCount c + 1 < MAX_FAILURES" "2000 < elapsed_at_check i c + 1270"
      "loop i c = failSequence (println ''Timed stage failed: Ran out of time!''
         (failSequence (println ''Timed stage failed: Too slow!''
            (delay 1412 (c\<lparr>clock := now i\<rparr>)))))"
proof -
  consider "ldr i > LIGHT_THRESHOLD" "elapsed_at_check i c \<le> 2000"
    | "\<not> ldr i > LIGHT_THRESHOLD" "elapsed_at_check i c \<le> 2000"
    | "\<not> ldr i > LIGHT_THRESHOLD" "2000 < elapsed_at_check i c"
    | "ldr i > LIGHT_THRESHOLD" "2000 < elapsed_at_check i c" "failureCount c + 1 \<ge> MAX_FAILURES"
    | "ldr i > LIGHT_THRESHOLD" "2000 < elapsed_at_check i c" "failureCount c + 1 < MAX_FAILURES"
        "\<not> 2000 < elapsed_at_check i c + 1270"
    | "ldr i > LIGHT_THRESHOLD" "2000 < elapsed_at_check i c" "failureCount c + 1 < MAX_FAILURES"
        "2000 < elapsed_at_check i c + 1270"
    by (meson not_le)
  then show thesis
  proof cases
    case 1 with assms advance show ?thesis by (simp add: stage3_advance)
  next
    case 2 with assms wait show ?thesis by (simp add: stage3_wait)
  next
    case 3 with assms timeout show ?thesis by (simp add: stage3_timeout)
  next
    case 4 with assms slow_once show ?thesis by (simp add: stage3_slow_lockdown)
  next
    case 5 with assms slow_once show ?thesis by (simp add: stage3_slow_once)
  next
    case 6 with assms slow_twice show ?thesis by (simp add: stage3_slow_twice)
  qed
qed

subsection \<open>Case analysis of one pass\<close>

lemma loop_cases:
  obtains (IDLE) "currentState c = IDLE" "loop i c = handleIdleState i (c\<lparr>clock := now i\<rparr>)"
  | (ARMING) "currentState c = ARMING" "loop i c = handleArmingState i (c\<lparr>clock := now i\<rparr>)"
  | (ARMED) "currentState c = ARMED"
      "loop i c = (set_state STAGE_1 (println ''System Armed. Begin sequence.''
                     (c\<lparr>clock := now i\<rparr>)))\<lparr>stageStartTime := now i\<rparr>"
  | (STAGE_1_go) "currentState c = STAGE_1" "ldr i < DARK_THRESHOLD"
      "loop i c = advanceStage STAGE_2 (delay 804 (c\<lparr>clock := now i\<rparr>))"
  | (STAGE_1_wait) "currentState c = STAGE_1" "\<not> ldr i < DARK_THRESHOLD"
      "loop i c = delay 804 (c\<lparr>clock := now i\<rparr>)"
  | (STAGE_2_go) "currentState c = STAGE_2" "ldr i < DARK_THRESHOLD \<and> button_a4 i = LOW"
      "loop i c = advanceStage STAGE_3_TIMED (delay 1108 (c\<lparr>clock := now i\<rparr>))"
  | (STAGE_2_wait) "currentState c = STAGE_2" "\<not> (ldr i < DARK_THRESHOLD \<and> button_a4 i = LOW)"
      "loop i c = delay 1108 (c\<lparr>clock := now i\<rparr>)"
  | (STAGE_3) "currentState c = STAGE_3_TIMED"
  | (STAGE_4_go) "currentState c = STAGE_4" "ldr i > LIGHT_THRESHOLD \<and> button_a5 i = LOW"
      "loop i c = unlockSequence (delay 1716 (c\<lparr>clock := now i\<rparr>))"
  | (STAGE_4_wait) "currentState c = STAGE_4" "\<not> (ldr i > LIGHT_THRESHOLD \<and> button_a5 i = LOW)"
      "loop i c = delay 1716 (c\<lparr>clock := now i\<rparr>)"
  | (UNLOCKED) "currentState c = UNLOCKED" "loop i c = c\<lparr>clock := now i\<rparr>"
  | (FAILED) "currentState c = FAILED" "loop i c = c\<lparr>clock := now i\<rparr>"
  | (LOCKDOWN) "currentState c = LOCKDOWN" "loop i c = handleLockdownState (c\<lparr>clock := now i\<rparr>)"
proof (cases "currentState c")
  case IDLE with that(1) show ?thesis by (simp add: loop_IDLE)
next
  case ARMING with that(2) show ?thesis by (simp add: loop_ARMING)
next
  case ARMED with that(3) show ?thesis by (simp add: loop_ARMED)
next
  case STAGE_1 with that(4,5) show ?thesis by (cases "ldr i < DARK_THRESHOLD") (simp_all add: loop_STAGE_1)
next
  case STAGE_2 with that(6,7) show ?thesis
    by (cases "ldr i < DARK_THRESHOLD \<and> button_a4 i = LOW") (simp_all add: loop_STAGE_2)
next
  case STAGE_3_TIMED with that(8) show ?thesis by simp
next
  case STAGE_4 with that(9,10) show ?thesis
    by (cases "ldr i > LIGHT_THRESHOLD \<and> button_a5 i = LOW") (simp_all add: loop_STAGE_4)
next
  case UNLOCKED with that(11) show ?thesis by (simp add: loop_UNLOCKED)
next
  case FAILED with that(12) show ?thesis by (simp add: loop_FAILED)
next
  case LOCKDOWN with that(13) show ?thesis by (simp add: loop_LOCKDOWN)
qed

subsection \<open>The elapsed time after the failure routine has blocked\<close>


subsection \<open>Runs that wait\<close>

lemma run_snoc: "run (is @ [i]) c = loop i (run is c)"
  by (induction "is" arbitrary: c) simp_all

lemma idle_stays:
  assumes "currentState c = IDLE" "\<not> (button_a4 i = LOW \<and> button_a5 i = LOW)"
  shows "currentState (loop i c) = IDLE"
  using assms by (simp add: loop_IDLE fields)

lemma idle_run_stays:
  assumes "currentState c = IDLE"
    and "\<forall>i \<in> set is. \<not> (button_a4 i = LOW \<and> button_a5 i = LOW)"
  shows "currentState (run is c) = IDLE"
  using assms
proof (induction "is" arbitrary: c)
  case Nil
  then show ?case by simp
next
  case (Cons i "is")
  from Cons.prems have "currentState (loop i c) = IDLE"
    by (simp add: idle_stays)
  with Cons show ?case by simp
qed

lemma unsatisfied_tick:
  assumes "currentState c \<noteq> STAGE_3_TIMED" "\<not> guard_satisfied i c"
  shows "currentState (loop i c) = currentState c \<and> failureCount (loop i c) = failureCount c
    \<and> stageStartTime (loop i c) = stageStartTime c \<and> tick_trace i c = []"
  using assms
  by (cases rule: loop_cases [of c i])
    (simp_all add: fields tick_trace_def guard_satisfied_def Let_def add.assoc)

lemma guard_satisfied_cong:
  assumes "currentState d = currentState c" "stageStartTime d = stageStartTime c"
  shows "guard_satisfied j d = guard_satisfied j c"
  using assms
  by (cases "currentState c") (simp_all add: guard_satisfied_def elapsed_at_check_eq fields Let_def)

lemma unsatisfied_run:
  assumes "currentState c \<noteq> STAGE_3_TIMED" "\<forall>j \<in> set js. \<not> guard_satisfied j c"
  shows "currentState (run js c) = currentState c \<and> failureCount (run js c) = failureCount c"
  using assms
proof (induction js arbitrary: c)
  case Nil
  then show ?case by simp
next
  case (Cons j js)
  from Cons.prems have first: "\<not> guard_satisfied j c"
    and later: "\<forall>k \<in> set js. \<not> guard_satisfied k c"
    by simp_all
  note same = unsatisfied_tick [OF Cons.prems(1) first]
  from same have cong: "guard_satisfied k (loop j c) = guard_satisfied k c" for k
    by (intro guard_satisfied_cong) blast+
  from same Cons.prems(1) have "currentState (loop j c) \<noteq> STAGE_3_TIMED"
    by metis
  moreover from later cong have "\<forall>k \<in> set js. \<not> guard_satisfied k (loop j c)"
    by blast
  ultimately have "currentState (run js (loop j c)) = currentState (loop j c)
      \<and> failureCount (run js (loop j c)) = failureCount (loop j c)"
    by (rule Cons.IH)
  with same show ?case
    by (metis run.simps(2))
qed

subsection \<open>The invariant of the failure counter\<close>

lemma counter_within_limit_tick:
  assumes "counter_within_limit c"
  shows "counter_within_limit (loop i c)"
proof (cases rule: loop_cases [of c i])
  case STAGE_3
  then show ?thesis
    by (cases rule: stage3_outcomes [where i = i])
      (use STAGE_3 assms in \<open>auto simp add: counter_within_limit_def fields MAX_FAILURES_def\<close>)
qed (use assms in \<open>auto simp add: counter_within_limit_def fields MAX_FAILURES_def\<close>)

lemma counter_within_limit_run:
  assumes "counter_within_limit c"
  shows "counter_within_limit (run js c)"
  using assms
  by (induction js arbitrary: c) (simp_all add: counter_within_limit_tick)

lemma counter_within_limit_setup: "counter_within_limit setup_lock"
  by (simp add: counter_within_limit_def setup_lock_def println_def MAX_FAILURES_def)

subsection \<open>Counting failures along a run\<close>

lemma failures_mono_tick: "failures c \<le> failures (loop i c)"
proof (cases rule: loop_cases [of c i])
  case STAGE_3
  then show ?thesis
    by (cases rule: stage3_outcomes [where i = i]) (simp_all add: outputs)
qed (simp_all add: outputs)

lemma unlocks_mono_tick: "unlocks c \<le> unlocks (loop i c)"
proof (cases rule: loop_cases [of c i])
  case STAGE_3
  then show ?thesis
    by (cases rule: stage3_outcomes [where i = i]) (simp_all add: outputs)
qed (simp_all add: outputs)

lemma failures_mono_run: "failures c \<le> failures (run js c)"
proof (induction js arbitrary: c)
  case Nil
  show ?case by simp
next
  case (Cons j js)
  have "failures c \<le> failures (loop j c)" by (rule failures_mono_tick)
  also have "\<dots> \<le> failures (run js (loop j c))" by (rule Cons.IH)
  finally show ?case by simp
qed

lemma unlocks_mono_run: "unlocks c \<le> unlocks (run js c)"
proof (induction js arbitrary: c)
  case Nil
  show ?case by simp
next
  case (Cons j js)
  have "unlocks c \<le> unlocks (loop j c)" by (rule unlocks_mono_tick)
  also have "\<dots> \<le> unlocks (run js (loop j c))" by (rule Cons.IH)
  finally show ?case by simp
qed

lemma count_tracks_failures:
  assumes "unlocks (loop i c) = unlocks c" "failureCount c < MAX_FAILURES"
    "currentState c = LOCKDOWN \<longrightarrow> failureCount c = 0"
  shows "failureCount (loop i c) = failureCount c + int (failures (loop i c) - failures c)
    \<and> (failureCount (loop i c) < MAX_FAILURES \<longrightarrow> currentState (loop i c) = LOCKDOWN \<longrightarrow>
          failureCount (loop i c) = 0)
    \<and> (failureCount (loop i c) \<ge> MAX_FAILURES \<longrightarrow>
          currentState (loop i c) = LOCKDOWN \<and> failureCount (loop i c) = MAX_FAILURES)"
proof (cases rule: loop_cases [of c i])
  case STAGE_3
  then show ?thesis
    by (cases rule: stage3_outcomes [where i = i])
      (use STAGE_3 assms in \<open>auto simp add: fields outputs MAX_FAILURES_def\<close>)
qed (use assms in \<open>auto simp add: fields outputs MAX_FAILURES_def\<close>)

lemma run_counts:
  assumes "failureCount c = 0" "unlocks (run js c) = unlocks c"
    "failures (run js c) < failures c + 3"
  shows "failureCount (run js c) = int (failures (run js c)) - int (failures c)
    \<and> (currentState (run js c) = LOCKDOWN \<longrightarrow> failureCount (run js c) = 0)"
  using assms
proof (induction js rule: rev_induct)
  case Nil
  then show ?case by simp
next
  case (snoc j js)
  let ?d = "run js c"
  from snoc.prems have after: "unlocks (loop j ?d) = unlocks c"
    "failures (loop j ?d) < failures c + 3"
    by (simp_all add: run_snoc)
  have u: "unlocks c \<le> unlocks ?d" "unlocks ?d \<le> unlocks (loop j ?d)"
    by (rule unlocks_mono_run, rule unlocks_mono_tick)
  have f: "failures c \<le> failures ?d" "failures ?d \<le> failures (loop j ?d)"
    by (rule failures_mono_run, rule failures_mono_tick)
  from u after have no_unlock: "unlocks ?d = unlocks c" "unlocks (loop j ?d) = unlocks ?d"
    by simp_all
  from f after have few: "failures ?d < failures c + 3"
    by simp
  note d = snoc.IH [OF snoc.prems(1) no_unlock(1) few, THEN conjunct1]
    snoc.IH [OF snoc.prems(1) no_unlock(1) few, THEN conjunct2]
  from d(1) few have "failureCount ?d < MAX_FAILURES"
    by (simp add: MAX_FAILURES_def)
  then have tick: "failureCount (loop j ?d) = failureCount ?d + int (failures (loop j ?d) - failures ?d)
    \<and> (failureCount (loop j ?d) < MAX_FAILURES \<longrightarrow> currentState (loop j ?d) = LOCKDOWN \<longrightarrow>
          failureCount (loop j ?d) = 0)
    \<and> (failureCount (loop j ?d) \<ge> MAX_FAILURES \<longrightarrow>
          currentState (loop j ?d) = LOCKDOWN \<and> failureCount (loop j ?d) = MAX_FAILURES)"
    using no_unlock(2) d(2) by (intro count_tracks_failures)
  note step = tick [THEN conjunct1] tick [THEN conjunct2, THEN conjunct1]
  from step(1) d(1) f have eq: "failureCount (loop j ?d) = int (failures (loop j ?d)) - int (failures c)"
    by simp
  with after(2) have "failureCount (loop j ?d) < MAX_FAILURES"
    by (simp add: MAX_FAILURES_def)
  with step(2) eq show ?case
    by (simp add: run_snoc)
qed

subsection \<open>Passes on which the failure routine runs twice\<close>

lemma clock_unlockSequence: "clock (unlockSequence c) = clock c + 3360"
  by (simp add: unlockSequence_def board Let_def)

lemma fails_twice_iff:
  "fails_twice i c \<longleftrightarrow>
     currentState c = STAGE_3_TIMED \<and> ldr i > LIGHT_THRESHOLD \<and> 2000 < elapsed_at_check i c
     \<and> failureCount c + 1 < MAX_FAILURES \<and> 2000 < elapsed_at_check i c + 1270"
proof -
  have "elapsed_at_recheck i c =
      (if failureCount c + 1 \<ge> MAX_FAILURES then 0 else elapsed_at_check i c + 1270)"
    by (simp add: elapsed_at_recheck_def elapsed_at_check_eq indicator fields Let_def)
  then show ?thesis
    by (auto simp add: fails_twice_def TIMED_STAGE_WINDOW_def)
qed

lemmas table_defs = tick_follows_def tick_trace_def sketch_table_def sketch_table_pass_def
  pass_effect_def waits_def indicator_done_def lockdown_elapsed_def

lemma fails_twice_failures: "fails_twice i c \<longleftrightarrow> failures (loop i c) = failures c + 2"
proof (cases rule: loop_cases [of c i])
  case STAGE_3
  then show ?thesis
    by (cases rule: stage3_outcomes [where i = i])
      (use STAGE_3 in \<open>auto simp add: fails_twice_iff fields outputs\<close>)
qed (simp_all add: fails_twice_def outputs)

lemma fails_twice_leaves_sketch_table:
  assumes "fails_twice i c"
  shows "\<not> tick_follows sketch_table i c"
proof -
  from assms have three: "currentState c = STAGE_3_TIMED"
    and twice: "ldr i > LIGHT_THRESHOLD" "2000 < elapsed_at_check i c"
      "failureCount c + 1 < MAX_FAILURES" "2000 < elapsed_at_check i c + 1270"
    by (simp_all add: fails_twice_iff)
  from three twice have "loop i c =
     failSequence (println ''Timed stage failed: Ran out of time!''
       (failSequence (println ''Timed stage failed: Too slow!''
          (delay 1412 (c\<lparr>clock := now i\<rparr>)))))"
    by (rule stage3_slow_twice)
  with three show ?thesis
    by (simp add: tick_follows_def tick_trace_def sketch_table_def fields)
qed

section \<open>The claims\<close>

subsection \<open>Transitions\<close>

text \<open>
  The table of section 4.1 is not followed row by row. When the timed stage runs out of
  time, the sketch assigns \<^verbatim>\<open>IDLE\<close> right after \<^verbatim>\<open>STAGE_3_TIMED\<close>; the table has no
  such row, it goes through \<open>Failed\<close>.
\<close>

theorem table_4_1_counterexample:
  "tick_trace \<lparr>ldr = 500, button_a4 = HIGH, button_a5 = HIGH, now = 5000\<rparr>
        \<lparr>currentState = STAGE_3_TIMED, failureCount = 0, stageStartTime = 1000,
         clock = 0, serial = [], history = []\<rparr> = [IDLE]
   \<and> \<not> tick_follows table_4_1 \<lparr>ldr = 500, button_a4 = HIGH, button_a5 = HIGH, now = 5000\<rparr>
        \<lparr>currentState = STAGE_3_TIMED, failureCount = 0, stageStartTime = 1000,
         clock = 0, serial = [], history = []\<rparr>"
  by (simp add: tick_follows_def tick_trace_def table_4_1_def sketch)

text \<open>
  Claim C1, amended. \<^verbatim>\<open>currentState\<close> is one variable of an enumerated type, so the
  controller is in exactly one state at a time. On every pass of the loop, except a pass
  on which the failure routine runs twice, every transition taken is a row of the table
  of section 4.1 with the \<open>Failed\<close> rows folded in, taken with the guard of that row
  satisfied; the pass takes a row whenever the guard of a row holds and waits otherwise;
  and it has the side effects of the row on the timer and the counter. \<^verbatim>\<open>FAILED\<close> is
  never assigned: on expiry the failure routine leads from \<^verbatim>\<open>STAGE_3_TIMED\<close> directly
  to \<^verbatim>\<open>LOCKDOWN\<close> when the incremented counter has reached the maximum and to
  \<^verbatim>\<open>IDLE\<close> otherwise, and \<^verbatim>\<open>IDLE\<close> is re-entered only from \<^verbatim>\<open>UNLOCKED\<close>,
  \<^verbatim>\<open>LOCKDOWN\<close> and \<^verbatim>\<open>STAGE_3_TIMED\<close>.
\<close>

theorem transitions_follow_sketch_table:
  assumes "\<not> fails_twice i c"
  shows "tick_follows sketch_table i c \<and> sketch_table_pass i c (loop i c)
    \<and> FAILED \<notin> set (tick_trace i c)
    \<and> (sketch_table j d s IDLE \<longrightarrow> s \<in> {UNLOCKED, LOCKDOWN, STAGE_3_TIMED})"
proof -
  have "tick_follows sketch_table i c \<and> sketch_table_pass i c (loop i c)
    \<and> FAILED \<notin> set (tick_trace i c)"
  proof (cases rule: loop_cases [of c i])
    case STAGE_3
    then show ?thesis
      by (cases rule: stage3_outcomes [where i = i])
        (use STAGE_3 assms in \<open>auto simp add: table_defs fields outputs indicator
            fails_twice_iff elapsed_at_check_eq TIMED_STAGE_WINDOW_def\<close>)
  qed (simp_all add: table_defs fields outputs indicator clock_unlockSequence add.assoc)
  then show ?thesis
    by (auto simp add: sketch_table_def)
qed

theorem transitions_follow_sketch_table_witness:
  "\<not> fails_twice \<lparr>ldr = 500, button_a4 = HIGH, button_a5 = HIGH, now = 5000\<rparr>
        \<lparr>currentState = STAGE_3_TIMED, failureCount = 0, stageStartTime = 1000,
         clock = 0, serial = [], history = []\<rparr>
   \<and> tick_follows sketch_table \<lparr>ldr = 500, button_a4 = HIGH, button_a5 = HIGH, now = 5000\<rparr>
        \<lparr>currentState = STAGE_3_TIMED, failureCount = 0, stageStartTime = 1000,
         clock = 0, serial = [], history = []\<rparr>
   \<and> sketch_table_pass \<lparr>ldr = 500, button_a4 = HIGH, button_a5 = HIGH, now = 5000\<rparr>
        \<lparr>currentState = STAGE_3_TIMED, failureCount = 0, stageStartTime = 1000,
         clock = 0, serial = [], history = []\<rparr>
        (loop \<lparr>ldr = 500, button_a4 = HIGH, button_a5 = HIGH, now = 5000\<rparr>
          \<lparr>currentState = STAGE_3_TIMED, failureCount = 0, stageStartTime = 1000,
           clock = 0, serial = [], history = []\<rparr>)
   \<and> sketch_table \<lparr>ldr = 500, button_a4 = HIGH, button_a5 = HIGH, now = 5000\<rparr>
        \<lparr>currentState = STAGE_3_TIMED, failureCount = 0, stageStartTime = 1000,
         clock = 0, serial = [], history = []\<rparr> STAGE_3_TIMED IDLE"
  using transitions_follow_sketch_table [of
      "\<lparr>ldr = 500, button_a4 = HIGH, button_a5 = HIGH, now = 5000\<rparr>"
      "\<lparr>currentState = STAGE_3_TIMED, failureCount = 0, stageStartTime = 1000,
         clock = 0, serial = [], history = []\<rparr>"
      "\<lparr>ldr = 500, button_a4 = HIGH, button_a5 = HIGH, now = 5000\<rparr>"
      "\<lparr>currentState = STAGE_3_TIMED, failureCount = 0, stageStartTime = 1000,
         clock = 0, serial = [], history = []\<rparr>" STAGE_3_TIMED]
  by (simp add: fails_twice_def limits sketch_table_def elapsed_at_check_eq)

text \<open>
  The passes left out above are exactly those that leave the folded table
  (\<open>fails_twice_leaves_sketch_table\<close>). With the counter at 1, the sensor uncovered and
  the window closed, the first run of the failure routine assigns \<^verbatim>\<open>IDLE\<close>, the second
  \<^verbatim>\<open>LOCKDOWN\<close>, and no row leads from \<^verbatim>\<open>IDLE\<close> to \<^verbatim>\<open>LOCKDOWN\<close>.
\<close>

lemma double_failure_leaves_sketch_table:
  "fails_twice \<lparr>ldr = 800, button_a4 = HIGH, button_a5 = HIGH, now = 5000\<rparr>
        \<lparr>currentState = STAGE_3_TIMED, failureCount = 1, stageStartTime = 1000,
         clock = 0, serial = [], history = []\<rparr>
   \<and> tick_trace \<lparr>ldr = 800, button_a4 = HIGH, button_a5 = HIGH, now = 5000\<rparr>
        \<lparr>currentState = STAGE_3_TIMED, failureCount = 1, stageStartTime = 1000,
         clock = 0, serial = [], history = []\<rparr> = [IDLE, LOCKDOWN]"
  by (simp add: fails_twice_iff elapsed_at_check_eq tick_trace_def sketch)

subsection \<open>The counter stays within its limit\<close>

text \<open>
  Claim C2. After any sequence of passes from power-on the failure counter lies in
  \<open>[0, MAX_FAILURES]\<close>, and whenever a pass ends with the counter at \<open>MAX_FAILURES\<close>
  the state it ends in is \<^verbatim>\<open>LOCKDOWN\<close>.
\<close>

theorem counter_bounded:
  "0 \<le> failureCount (run js setup_lock)
   \<and> failureCount (run js setup_lock) \<le> MAX_FAILURES
   \<and> (failureCount (run js setup_lock) = MAX_FAILURES \<longrightarrow>
        currentState (run js setup_lock) = LOCKDOWN)
   \<and> (failureCount (loop i (run js setup_lock)) = MAX_FAILURES \<longrightarrow>
        currentState (loop i (run js setup_lock)) = LOCKDOWN)"
proof -
  have "counter_within_limit (run js setup_lock)"
    by (rule counter_within_limit_run [OF counter_within_limit_setup])
  moreover from this have "counter_within_limit (loop i (run js setup_lock))"
    by (rule counter_within_limit_tick)
  ultimately show ?thesis
    by (simp add: counter_within_limit_def)
qed

theorem counter_bounded_witness:
  "failureCount (loop \<lparr>ldr = 500, button_a4 = HIGH, button_a5 = HIGH, now = 19000\<rparr>
       (run lockdown_run setup_lock)) = MAX_FAILURES
   \<and> currentState (loop \<lparr>ldr = 500, button_a4 = HIGH, button_a5 = HIGH, now = 19000\<rparr>
       (run lockdown_run setup_lock)) = LOCKDOWN"
proof -
  have "failureCount (loop \<lparr>ldr = 500, button_a4 = HIGH, button_a5 = HIGH, now = 19000\<rparr>
       (run lockdown_run setup_lock)) = 3"
    by (simp add: lockdown_run_def setup_lock_def sketch)
  with counter_bounded [of lockdown_run
      "\<lparr>ldr = 500, button_a4 = HIGH, button_a5 = HIGH, now = 19000\<rparr>"]
  show ?thesis
    by (simp add: MAX_FAILURES_def)
qed

subsection \<open>Expiry wins over success\<close>

text \<open>
  Claim C3. In the timed stage, when the time since stage entry exceeds the window at the
  check, the pass takes the failure path whatever the light sensor reads: the failure
  routine runs, the counter grows, the pass ends in \<^verbatim>\<open>IDLE\<close> or \<^verbatim>\<open>LOCKDOWN\<close>, and
  \<^verbatim>\<open>STAGE_4\<close> is not entered at any point of the pass.
\<close>

theorem stage3_expiry_wins:
  assumes "currentState c = STAGE_3_TIMED"
    and "word_of_int TIMED_STAGE_WINDOW < elapsed_at_check i c"
  shows "currentState (loop i c) \<noteq> STAGE_4 \<and> STAGE_4 \<notin> set (tick_trace i c)
    \<and> (currentState (loop i c) = IDLE \<or> currentState (loop i c) = LOCKDOWN)
    \<and> failures c < failures (loop i c) \<and> failureCount c < failureCount (loop i c)"
proof -
  from assms(2) have late: "2000 < elapsed_at_check i c"
    by (simp add: TIMED_STAGE_WINDOW_def)
  from assms(1) show ?thesis
  proof (cases rule: stage3_outcomes [where i = i])
    case advance with late show ?thesis by simp
  next
    case wait with late show ?thesis by simp
  next
    case timeout then show ?thesis by (simp add: tick_trace_def fields outputs)
  next
    case slow_once then show ?thesis by (simp add: tick_trace_def fields outputs)
  next
    case slow_twice then show ?thesis by (simp add: tick_trace_def fields outputs)
  qed
qed

theorem stage3_expiry_wins_witness:
  "currentState \<lparr>currentState = STAGE_3_TIMED, failureCount = 2, stageStartTime = 1000,
      clock = 0, serial = [], history = []\<rparr> = STAGE_3_TIMED
   \<and> word_of_int TIMED_STAGE_WINDOW
       < elapsed_at_check \<lparr>ldr = 800, button_a4 = HIGH, button_a5 = HIGH, now = 5000\<rparr>
           \<lparr>currentState = STAGE_3_TIMED, failureCount = 2, stageStartTime = 1000,
            clock = 0, serial = [], history = []\<rparr>
   \<and> LIGHT_THRESHOLD < ldr \<lparr>ldr = 800, button_a4 = HIGH, button_a5 = HIGH, now = 5000\<rparr>
   \<and> currentState (loop \<lparr>ldr = 800, button_a4 = HIGH, button_a5 = HIGH, now = 5000\<rparr>
          \<lparr>currentState = STAGE_3_TIMED, failureCount = 2, stageStartTime = 1000,
           clock = 0, serial = [], history = []\<rparr>) \<noteq> STAGE_4
   \<and> failureCount (loop \<lparr>ldr = 800, button_a4 = HIGH, button_a5 = HIGH, now = 5000\<rparr>
          \<lparr>currentState = STAGE_3_TIMED, failureCount = 2, stageStartTime = 1000,
           clock = 0, serial = [], history = []\<rparr>) > 2"
  using stage3_expiry_wins [of
      "\<lparr>currentState = STAGE_3_TIMED, failureCount = 2, stageStartTime = 1000,
        clock = 0, serial = [], history = []\<rparr>"
      "\<lparr>ldr = 800, button_a4 = HIGH, button_a5 = HIGH, now = 5000\<rparr>"]
  by (simp add: elapsed_at_check_eq limits)

subsection \<open>The third failure\<close>

text \<open>
  Claim C4. Take any run that starts with the counter at zero and in which the unlock
  routine never runs. If the failure routine has run fewer than three times before a pass
  and at least three times after it, then that pass ends in \<^verbatim>\<open>LOCKDOWN\<close>, not in
  \<^verbatim>\<open>IDLE\<close>, with the counter at \<open>MAX_FAILURES\<close> and exactly three failures. In
  particular, with the counter at 2, a pass of the timed stage after the window has
  closed brings the counter to 3 and ends in \<^verbatim>\<open>LOCKDOWN\<close>.
\<close>

theorem third_failure_locks_down:
  "(failureCount c = 0 \<and> unlocks (run (js @ [j]) c) = unlocks c
      \<and> failures (run js c) < failures c + 3 \<and> failures c + 3 \<le> failures (run (js @ [j]) c)
    \<longrightarrow> currentState (run (js @ [j]) c) = LOCKDOWN
        \<and> failureCount (run (js @ [j]) c) = MAX_FAILURES
        \<and> failures (run (js @ [j]) c) = failures c + 3)
   \<and> (currentState d = STAGE_3_TIMED \<and> failureCount d = 2
        \<and> word_of_int TIMED_STAGE_WINDOW < elapsed_at_check i d
    \<longrightarrow> failureCount (loop i d) = 3 \<and> currentState (loop i d) = LOCKDOWN
        \<and> failures (loop i d) = failures d + 1)"
proof -
  have "currentState (run (js @ [j]) c) = LOCKDOWN
        \<and> failureCount (run (js @ [j]) c) = MAX_FAILURES
        \<and> failures (run (js @ [j]) c) = failures c + 3"
    if zero: "failureCount c = 0" and no_unlock: "unlocks (run (js @ [j]) c) = unlocks c"
      and before: "failures (run js c) < failures c + 3"
      and after: "failures c + 3 \<le> failures (run (js @ [j]) c)"
  proof -
    let ?d = "run js c"
    have u: "unlocks c \<le> unlocks ?d" "unlocks ?d \<le> unlocks (loop j ?d)"
      by (rule unlocks_mono_run, rule unlocks_mono_tick)
    with no_unlock have same: "unlocks ?d = unlocks c" "unlocks (loop j ?d) = unlocks ?d"
      by (simp_all add: run_snoc)
    have f: "failures c \<le> failures ?d"
      by (rule failures_mono_run)
    note d = run_counts [OF zero same(1) before, THEN conjunct1]
      run_counts [OF zero same(1) before, THEN conjunct2]
    from d(1) before have "failureCount ?d < MAX_FAILURES"
      by (simp add: MAX_FAILURES_def)
    then have tick: "failureCount (loop j ?d) = failureCount ?d + int (failures (loop j ?d) - failures ?d)
      \<and> (failureCount (loop j ?d) < MAX_FAILURES \<longrightarrow> currentState (loop j ?d) = LOCKDOWN \<longrightarrow>
          failureCount (loop j ?d) = 0)
      \<and> (failureCount (loop j ?d) \<ge> MAX_FAILURES \<longrightarrow>
          currentState (loop j ?d) = LOCKDOWN \<and> failureCount (loop j ?d) = MAX_FAILURES)"
      using same(2) d(2) by (intro count_tracks_failures)
    note step = tick [THEN conjunct1] tick [THEN conjunct2, THEN conjunct2]
    from after have after': "failures c + 3 \<le> failures (loop j ?d)"
      by (simp add: run_snoc)
    with step(1) d(1) f before
    have eq: "failureCount (loop j ?d) = int (failures (loop j ?d)) - int (failures c)"
      by simp
    with after' have "failureCount (loop j ?d) \<ge> MAX_FAILURES"
      by (simp add: MAX_FAILURES_def)
    with step(2) have "currentState (loop j ?d) = LOCKDOWN"
      "failureCount (loop j ?d) = MAX_FAILURES"
      by simp_all
    with eq after' show ?thesis
      by (simp add: run_snoc MAX_FAILURES_def)
  qed
  moreover have "failureCount (loop i d) = 3 \<and> currentState (loop i d) = LOCKDOWN
        \<and> failures (loop i d) = failures d + 1"
    if three: "currentState d = STAGE_3_TIMED" and two: "failureCount d = 2"
      and late: "word_of_int TIMED_STAGE_WINDOW < elapsed_at_check i d"
    using three
    by (cases rule: stage3_outcomes [where i = i])
      (use two late in \<open>simp_all add: fields outputs limits\<close>)
  ultimately show ?thesis
    by blast
qed

theorem third_failure_locks_down_witness:
  "failureCount \<lparr>currentState = STAGE_3_TIMED, failureCount = 0, stageStartTime = 1000,
      clock = 0, serial = [], history = []\<rparr> = 0
   \<and> unlocks (run (three_failures_run
          @ [\<lparr>ldr = 500, button_a4 = HIGH, button_a5 = HIGH, now = 19000\<rparr>])
        \<lparr>currentState = STAGE_3_TIMED, failureCount = 0, stageStartTime = 1000,
         clock = 0, serial = [], history = []\<rparr>) = 0
   \<and> failures (run three_failures_run
        \<lparr>currentState = STAGE_3_TIMED, failureCount = 0, stageStartTime = 1000,
         clock = 0, serial = [], history = []\<rparr>) = 2
   \<and> failures (run (three_failures_run
          @ [\<lparr>ldr = 500, button_a4 = HIGH, button_a5 = HIGH, now = 19000\<rparr>])
        \<lparr>currentState = STAGE_3_TIMED, failureCount = 0, stageStartTime = 1000,
         clock = 0, serial = [], history = []\<rparr>) = 3
   \<and> currentState (run (three_failures_run
          @ [\<lparr>ldr = 500, button_a4 = HIGH, button_a5 = HIGH, now = 19000\<rparr>])
        \<lparr>currentState = STAGE_3_TIMED, failureCount = 0, stageStartTime = 1000,
         clock = 0, serial = [], history = []\<rparr>) = LOCKDOWN
   \<and> word_of_int TIMED_STAGE_WINDOW
       < elapsed_at_check \<lparr>ldr = 500, button_a4 = HIGH, button_a5 = HIGH, now = 5000\<rparr>
           \<lparr>currentState = STAGE_3_TIMED, failureCount = 2, stageStartTime = 1000,
            clock = 0, serial = [], history = []\<rparr>
   \<and> currentState (loop \<lparr>ldr = 500, button_a4 = HIGH, button_a5 = HIGH, now = 5000\<rparr>
        \<lparr>currentState = STAGE_3_TIMED, failureCount = 2, stageStartTime = 1000,
         clock = 0, serial = [], history = []\<rparr>) = LOCKDOWN"
proof -
  let ?c = "\<lparr>currentState = STAGE_3_TIMED, failureCount = 0, stageStartTime = 1000,
         clock = 0, serial = [], history = []\<rparr>"
  let ?j = "\<lparr>ldr = 500, button_a4 = HIGH, button_a5 = HIGH, now = 19000\<rparr>"
  have before: "failures (run three_failures_run ?c) = 2"
    by (simp add: three_failures_run_def sketch failures_def)
  have after: "failures (run (three_failures_run @ [?j]) ?c) = 3"
    by (simp add: three_failures_run_def sketch failures_def)
  have none: "unlocks (run (three_failures_run @ [?j]) ?c) = 0"
    by (simp add: three_failures_run_def sketch unlocks_def)
  have start: "failures ?c = 0" "unlocks ?c = 0"
    by (simp_all add: failures_def unlocks_def)
  from before after none start
    third_failure_locks_down [of ?c three_failures_run ?j
      "\<lparr>currentState = STAGE_3_TIMED, failureCount = 2, stageStartTime = 1000,
         clock = 0, serial = [], history = []\<rparr>"
      "\<lparr>ldr = 500, button_a4 = HIGH, button_a5 = HIGH, now = 5000\<rparr>"]
  show ?thesis
    by (simp add: elapsed_at_check_eq limits)
qed

subsection \<open>Where the counter changes\<close>

text \<open>
  Claim C5. A pass sets the failure counter to zero exactly when it goes through
  \<^verbatim>\<open>UNLOCKED\<close> (that is, when the unlock routine runs) or leaves \<^verbatim>\<open>LOCKDOWN\<close>;
  otherwise the counter grows by the number of runs of the failure routine in that pass
  and by nothing else. A pass that starts in \<^verbatim>\<open>LOCKDOWN\<close> either stays there or
  assigns \<^verbatim>\<open>IDLE\<close> and nothing else.
\<close>

theorem counter_changes:
  "failureCount (loop i c) =
     (if UNLOCKED \<in> set (tick_trace i c)
         \<or> (currentState c = LOCKDOWN \<and> currentState (loop i c) \<noteq> LOCKDOWN)
      then 0
      else failureCount c + int (failures (loop i c) - failures c))
   \<and> failures c \<le> failures (loop i c)
   \<and> (UNLOCKED \<in> set (tick_trace i c) \<longleftrightarrow> unlocks (loop i c) = unlocks c + 1)
   \<and> (currentState c = LOCKDOWN \<longrightarrow>
        (currentState (loop i c) = LOCKDOWN \<and> tick_trace i c = [])
        \<or> (currentState (loop i c) = IDLE \<and> tick_trace i c = [IDLE]
            \<and> failureCount (loop i c) = 0))"
proof (cases rule: loop_cases [of c i])
  case STAGE_3
  then show ?thesis
    by (cases rule: stage3_outcomes [where i = i])
      (use STAGE_3 in \<open>simp_all add: fields outputs tick_trace_def\<close>)
qed (simp_all add: fields outputs tick_trace_def)

theorem counter_changes_witness:
  "currentState \<lparr>currentState = LOCKDOWN, failureCount = 3, stageStartTime = 1000,
      clock = 0, serial = [], history = []\<rparr> = LOCKDOWN
   \<and> currentState (loop \<lparr>ldr = 500, button_a4 = HIGH, button_a5 = HIGH, now = 20000\<rparr>
        \<lparr>currentState = LOCKDOWN, failureCount = 3, stageStartTime = 1000,
         clock = 0, serial = [], history = []\<rparr>) = IDLE
   \<and> failureCount (loop \<lparr>ldr = 500, button_a4 = HIGH, button_a5 = HIGH, now = 20000\<rparr>
        \<lparr>currentState = LOCKDOWN, failureCount = 3, stageStartTime = 1000,
         clock = 0, serial = [], history = []\<rparr>) = 0"
  using counter_changes [of
      "\<lparr>ldr = 500, button_a4 = HIGH, button_a5 = HIGH, now = 20000\<rparr>"
      "\<lparr>currentState = LOCKDOWN, failureCount = 3, stageStartTime = 1000,
         clock = 0, serial = [], history = []\<rparr>"]
  by (simp add: loop_LOCKDOWN fields)

subsection \<open>Arming\<close>

text \<open>
  Claim C6. From \<^verbatim>\<open>IDLE\<close> a pass leaves \<^verbatim>\<open>IDLE\<close> if and only if both buttons read
  pressed (\<^verbatim>\<open>LOW\<close>) on that pass, and then it enters \<^verbatim>\<open>ARMING\<close>; over any sequence
  of passes on none of which both buttons read pressed, the controller stays in
  \<^verbatim>\<open>IDLE\<close>. From \<^verbatim>\<open>ARMING\<close> a pass reaches \<^verbatim>\<open>ARMED\<close> if and only if both
  buttons read released (\<^verbatim>\<open>HIGH\<close>) on that pass, and no pass ends in \<^verbatim>\<open>ARMED\<close>
  in any other way.
\<close>

theorem arming_needs_both_buttons:
  "(currentState c = IDLE \<longrightarrow>
      (currentState (loop i c) \<noteq> IDLE \<longleftrightarrow> button_a4 i = LOW \<and> button_a5 i = LOW)
      \<and> (currentState (loop i c) = IDLE \<or> currentState (loop i c) = ARMING))
   \<and> (currentState c = IDLE
        \<and> (\<forall>j \<in> set js. \<not> (button_a4 j = LOW \<and> button_a5 j = LOW)) \<longrightarrow>
      currentState (run js c) = IDLE)
   \<and> (currentState c = ARMING \<longrightarrow>
      (currentState (loop i c) = ARMED \<longleftrightarrow> button_a4 i = HIGH \<and> button_a5 i = HIGH)
      \<and> (currentState (loop i c) = ARMING \<or> currentState (loop i c) = ARMED))
   \<and> (currentState (loop i c) = ARMED \<longrightarrow>
      currentState c = ARMING \<and> button_a4 i = HIGH \<and> button_a5 i = HIGH)"
proof -
  have "currentState (loop i c) = ARMED \<longrightarrow>
      currentState c = ARMING \<and> button_a4 i = HIGH \<and> button_a5 i = HIGH"
  proof (cases rule: loop_cases [of c i])
    case STAGE_3
    then show ?thesis
      by (cases rule: stage3_outcomes [where i = i]) (use STAGE_3 in \<open>simp_all add: fields\<close>)
  qed (simp_all add: fields)
  moreover have "currentState c = IDLE \<longrightarrow>
      (currentState (loop i c) \<noteq> IDLE \<longleftrightarrow> button_a4 i = LOW \<and> button_a5 i = LOW)
      \<and> (currentState (loop i c) = IDLE \<or> currentState (loop i c) = ARMING)"
    by (simp add: loop_IDLE fields)
  moreover have "currentState c = ARMING \<longrightarrow>
      (currentState (loop i c) = ARMED \<longleftrightarrow> button_a4 i = HIGH \<and> button_a5 i = HIGH)
      \<and> (currentState (loop i c) = ARMING \<or> currentState (loop i c) = ARMED)"
    by (simp add: loop_ARMING fields)
  ultimately show ?thesis
    using idle_run_stays [of c js] by blast
qed

theorem arming_needs_both_buttons_witness:
  "currentState setup_lock = IDLE
   \<and> list_all (\<lambda>j. \<not> (button_a4 j = LOW \<and> button_a5 j = LOW))
         [\<lparr>ldr = 500, button_a4 = LOW, button_a5 = HIGH, now = 10\<rparr>,
          \<lparr>ldr = 500, button_a4 = HIGH, button_a5 = LOW, now = 20\<rparr>,
          \<lparr>ldr = 500, button_a4 = HIGH, button_a5 = HIGH, now = 30\<rparr>]
   \<and> currentState (run [\<lparr>ldr = 500, button_a4 = LOW, button_a5 = HIGH, now = 10\<rparr>,
                  \<lparr>ldr = 500, button_a4 = HIGH, button_a5 = LOW, now = 20\<rparr>,
                  \<lparr>ldr = 500, button_a4 = HIGH, button_a5 = HIGH, now = 30\<rparr>] setup_lock) = IDLE
   \<and> currentState (loop \<lparr>ldr = 500, button_a4 = LOW, button_a5 = LOW, now = 40\<rparr> setup_lock)
       = ARMING"
  using arming_needs_both_buttons [of setup_lock
      "\<lparr>ldr = 500, button_a4 = LOW, button_a5 = LOW, now = 40\<rparr>"
      "[\<lparr>ldr = 500, button_a4 = LOW, button_a5 = HIGH, now = 10\<rparr>,
        \<lparr>ldr = 500, button_a4 = HIGH, button_a5 = LOW, now = 20\<rparr>,
        \<lparr>ldr = 500, button_a4 = HIGH, button_a5 = HIGH, now = 30\<rparr>]"]
  by (auto simp add: setup_lock_def println_def)

subsection \<open>The dead zone\<close>

text \<open>
  Claim C7. A sensor reading strictly between the dark and the light threshold satisfies
  neither the dark guard nor the light guard. A pass with such a reading in stage 1, 2 or
  4 assigns no state and leaves the counter and the timestamp alone; in the timed stage
  it does the same while the window is open, and runs the failure routine once when the
  window has closed.
\<close>

theorem dead_zone_waits:
  assumes "DARK_THRESHOLD < ldr i" and "ldr i < LIGHT_THRESHOLD"
  shows "\<not> ldr i < DARK_THRESHOLD \<and> \<not> ldr i > LIGHT_THRESHOLD
    \<and> (currentState c \<in> {STAGE_1, STAGE_2, STAGE_4} \<longrightarrow>
         currentState (loop i c) = currentState c
         \<and> failureCount (loop i c) = failureCount c
         \<and> stageStartTime (loop i c) = stageStartTime c
         \<and> tick_trace i c = [])
    \<and> (currentState c = STAGE_3_TIMED \<longrightarrow>
         (if word_of_int TIMED_STAGE_WINDOW < elapsed_at_check i c
          then currentState (loop i c) \<in> {IDLE, LOCKDOWN}
               \<and> failures (loop i c) = failures c + 1
               \<and> failureCount (loop i c) = failureCount c + 1
          else currentState (loop i c) = STAGE_3_TIMED
               \<and> failureCount (loop i c) = failureCount c
               \<and> stageStartTime (loop i c) = stageStartTime c
               \<and> tick_trace i c = []))"
proof -
  from assms have neither: "\<not> ldr i < DARK_THRESHOLD" "\<not> ldr i > LIGHT_THRESHOLD"
    by simp_all
  have "currentState (loop i c) = currentState c
         \<and> failureCount (loop i c) = failureCount c
         \<and> stageStartTime (loop i c) = stageStartTime c
         \<and> tick_trace i c = []"
    if "currentState c \<in> {STAGE_1, STAGE_2, STAGE_4}"
    using that neither
    by (cases rule: loop_cases [of c i]) (simp_all add: fields tick_trace_def)
  moreover have "if word_of_int TIMED_STAGE_WINDOW < elapsed_at_check i c
          then currentState (loop i c) \<in> {IDLE, LOCKDOWN}
               \<and> failures (loop i c) = failures c + 1
               \<and> failureCount (loop i c) = failureCount c + 1
          else currentState (loop i c) = STAGE_3_TIMED
               \<and> failureCount (loop i c) = failureCount c
               \<and> stageStartTime (loop i c) = stageStartTime c
               \<and> tick_trace i c = []"
    if three: "currentState c = STAGE_3_TIMED"
    using three
    by (cases rule: stage3_outcomes [where i = i])
      (use neither three in \<open>simp_all add: fields outputs tick_trace_def TIMED_STAGE_WINDOW_def not_less\<close>)
  ultimately show ?thesis using neither by blast
qed

theorem dead_zone_waits_witness:
  "DARK_THRESHOLD < ldr \<lparr>ldr = 550, button_a4 = LOW, button_a5 = LOW, now = 5000\<rparr>
   \<and> ldr \<lparr>ldr = 550, button_a4 = LOW, button_a5 = LOW, now = 5000\<rparr> < LIGHT_THRESHOLD
   \<and> currentState \<lparr>currentState = STAGE_2, failureCount = 1, stageStartTime = 1000,
         clock = 0, serial = [], history = []\<rparr> \<in> {STAGE_1, STAGE_2, STAGE_4}
   \<and> currentState (loop \<lparr>ldr = 550, button_a4 = LOW, button_a5 = LOW, now = 5000\<rparr>
        \<lparr>currentState = STAGE_2, failureCount = 1, stageStartTime = 1000,
         clock = 0, serial = [], history = []\<rparr>) = STAGE_2
   \<and> stageStartTime (loop \<lparr>ldr = 550, button_a4 = LOW, button_a5 = LOW, now = 5000\<rparr>
        \<lparr>currentState = STAGE_2, failureCount = 1, stageStartTime = 1000,
         clock = 0, serial = [], history = []\<rparr>) = 1000"
  using dead_zone_waits [of
      "\<lparr>ldr = 550, button_a4 = LOW, button_a5 = LOW, now = 5000\<rparr>"
      "\<lparr>currentState = STAGE_2, failureCount = 1, stageStartTime = 1000,
         clock = 0, serial = [], history = []\<rparr>"]
  by (simp add: limits)

subsection \<open>Where the failure path starts\<close>

text \<open>
  Claim C8. The failure routine runs only on a pass that starts in the timed stage with
  the window closed. On a pass from any other state neither \<^verbatim>\<open>FAILED\<close> nor
  \<^verbatim>\<open>LOCKDOWN\<close> is assigned, and when the guard of the state is not satisfied the pass
  assigns no state and leaves the failure counter alone; this holds over any number of
  such passes.
\<close>

theorem failure_only_from_timed_stage:
  "(failures (loop i c) \<noteq> failures c \<longrightarrow>
      currentState c = STAGE_3_TIMED \<and> word_of_int TIMED_STAGE_WINDOW < elapsed_at_check i c)
   \<and> (currentState c \<noteq> STAGE_3_TIMED \<longrightarrow>
        FAILED \<notin> set (tick_trace i c) \<and> LOCKDOWN \<notin> set (tick_trace i c)
        \<and> (\<not> guard_satisfied i c \<longrightarrow>
             currentState (loop i c) = currentState c
             \<and> failureCount (loop i c) = failureCount c
             \<and> tick_trace i c = [])
        \<and> ((\<forall>j \<in> set js. \<not> guard_satisfied j c) \<longrightarrow>
             currentState (run js c) = currentState c
             \<and> failureCount (run js c) = failureCount c))"
proof -
  have "(failures (loop i c) \<noteq> failures c \<longrightarrow>
      currentState c = STAGE_3_TIMED \<and> word_of_int TIMED_STAGE_WINDOW < elapsed_at_check i c)
   \<and> (currentState c \<noteq> STAGE_3_TIMED \<longrightarrow>
        FAILED \<notin> set (tick_trace i c) \<and> LOCKDOWN \<notin> set (tick_trace i c))"
  proof (cases rule: loop_cases [of c i])
    case STAGE_3
    then show ?thesis
      by (cases rule: stage3_outcomes [where i = i])
        (use STAGE_3 in \<open>simp_all add: fields outputs TIMED_STAGE_WINDOW_def\<close>)
  qed (simp_all add: fields outputs tick_trace_def)
  then show ?thesis
    using unsatisfied_tick [of c i] unsatisfied_run [of c js] by blast
qed

theorem failure_only_from_timed_stage_witness:
  "currentState \<lparr>currentState = STAGE_2, failureCount = 1, stageStartTime = 1000,
      clock = 0, serial = [], history = []\<rparr> \<noteq> STAGE_3_TIMED
   \<and> \<not> guard_satisfied \<lparr>ldr = 100, button_a4 = HIGH, button_a5 = LOW, now = 90000\<rparr>
        \<lparr>currentState = STAGE_2, failureCount = 1, stageStartTime = 1000,
         clock = 0, serial = [], history = []\<rparr>
   \<and> list_all (\<lambda>j. \<not> guard_satisfied j \<lparr>currentState = STAGE_2, failureCount = 1,
           stageStartTime = 1000, clock = 0, serial = [], history = []\<rparr>)
         [\<lparr>ldr = 100, button_a4 = HIGH, button_a5 = LOW, now = 90000\<rparr>,
          \<lparr>ldr = 900, button_a4 = LOW, button_a5 = LOW, now = 99000\<rparr>]
   \<and> currentState (run [\<lparr>ldr = 100, button_a4 = HIGH, button_a5 = LOW, now = 90000\<rparr>,
                  \<lparr>ldr = 900, button_a4 = LOW, button_a5 = LOW, now = 99000\<rparr>]
        \<lparr>currentState = STAGE_2, failureCount = 1, stageStartTime = 1000,
         clock = 0, serial = [], history = []\<rparr>) = STAGE_2
   \<and> failureCount (loop \<lparr>ldr = 100, button_a4 = HIGH, button_a5 = LOW, now = 90000\<rparr>
        \<lparr>currentState = STAGE_2, failureCount = 1, stageStartTime = 1000,
         clock = 0, serial = [], history = []\<rparr>) = 1"
  using failure_only_from_timed_stage [of
      "\<lparr>ldr = 100, button_a4 = HIGH, button_a5 = LOW, now = 90000\<rparr>"
      "\<lparr>currentState = STAGE_2, failureCount = 1, stageStartTime = 1000,
         clock = 0, serial = [], history = []\<rparr>"
      "[\<lparr>ldr = 100, button_a4 = HIGH, button_a5 = LOW, now = 90000\<rparr>,
        \<lparr>ldr = 900, button_a4 = LOW, button_a5 = LOW, now = 99000\<rparr>]"]
  by (simp add: guard_satisfied_def limits)

subsection \<open>The stage-entry timestamp\<close>

text \<open>
  Claim C9. When a pass changes \<^verbatim>\<open>stageStartTime\<close>, it has changed the state, and the
  state it ends in is one of the four stages or \<^verbatim>\<open>LOCKDOWN\<close>. A pass that ends in the
  state it began in, the idle and the arming handler, the unlock routine, and the failure
  routine when it returns to \<^verbatim>\<open>IDLE\<close> all leave the timestamp as it was.
\<close>

theorem stageStartTime_frame:
  "(stageStartTime (loop i c) \<noteq> stageStartTime c \<longrightarrow>
      currentState (loop i c) \<noteq> currentState c
      \<and> currentState (loop i c) \<in> {STAGE_1, STAGE_2, STAGE_3_TIMED, STAGE_4, LOCKDOWN})
   \<and> (currentState (loop i c) = currentState c \<longrightarrow> stageStartTime (loop i c) = stageStartTime c)
   \<and> stageStartTime (handleIdleState i c) = stageStartTime c
   \<and> stageStartTime (handleArmingState i c) = stageStartTime c
   \<and> stageStartTime (unlockSequence c) = stageStartTime c
   \<and> (currentState (failSequence c) = IDLE \<longrightarrow> stageStartTime (failSequence c) = stageStartTime c)"
proof -
  have tick: "(stageStartTime (loop i c) \<noteq> stageStartTime c \<longrightarrow>
      currentState (loop i c) \<noteq> currentState c
      \<and> currentState (loop i c) \<in> {STAGE_1, STAGE_2, STAGE_3_TIMED, STAGE_4, LOCKDOWN})
   \<and> (currentState (loop i c) = currentState c \<longrightarrow> stageStartTime (loop i c) = stageStartTime c)"
  proof (cases rule: loop_cases [of c i])
    case STAGE_3
    then show ?thesis
      by (cases rule: stage3_outcomes [where i = i]) (use STAGE_3 in \<open>simp_all add: fields\<close>)
  qed (simp_all add: fields)
  then show ?thesis by (simp add: fields)
qed

theorem stageStartTime_frame_witness:
  "stageStartTime (loop \<lparr>ldr = 800, button_a4 = HIGH, button_a5 = HIGH, now = 5000\<rparr>
        \<lparr>currentState = ARMED, failureCount = 0, stageStartTime = 1000,
         clock = 0, serial = [], history = []\<rparr>)
     \<noteq> stageStartTime \<lparr>currentState = ARMED, failureCount = 0, stageStartTime = 1000,
         clock = 0, serial = [], history = []\<rparr>
   \<and> currentState (loop \<lparr>ldr = 800, button_a4 = HIGH, button_a5 = HIGH, now = 5000\<rparr>
        \<lparr>currentState = ARMED, failureCount = 0, stageStartTime = 1000,
         clock = 0, serial = [], history = []\<rparr>) \<noteq> ARMED
   \<and> currentState (failSequence \<lparr>currentState = ARMED, failureCount = 0, stageStartTime = 1000,
         clock = 0, serial = [], history = []\<rparr>) = IDLE
   \<and> stageStartTime (failSequence \<lparr>currentState = ARMED, failureCount = 0,
         stageStartTime = 1000, clock = 0, serial = [], history = []\<rparr>) = 1000"
  using stageStartTime_frame [of
      "\<lparr>ldr = 800, button_a4 = HIGH, button_a5 = HIGH, now = 5000\<rparr>"
      "\<lparr>currentState = ARMED, failureCount = 0, stageStartTime = 1000,
         clock = 0, serial = [], history = []\<rparr>"]
  by (simp add: loop_ARMED fields limits)

subsection \<open>Two failures in one pass\<close>




end
